theory Spec2Isabelle
  imports Main "HOL-Library.Sublist"
begin

section \<open>JavaScript strings\<close>

text \<open>
  A string is a list of code units; the model covers the code units below 256, so a
  \<^typ>\<open>char\<close> is one unit. The methods of \<^verbatim>\<open>String.prototype\<close> the sources call are
  written out here: \<^verbatim>\<open>startsWith\<close>, \<^verbatim>\<open>includes\<close>, \<^verbatim>\<open>toLowerCase\<close>, \<^verbatim>\<open>trim\<close>,
  \<^verbatim>\<open>split\<close>, \<^verbatim>\<open>slice\<close> with one argument and \<^verbatim>\<open>replace\<close> with a string pattern.
\<close>

definition startsWith :: "string \<Rightarrow> string \<Rightarrow> bool" where
  "startsWith s p = prefix p s"

definition includes_str :: "string \<Rightarrow> string \<Rightarrow> bool" where
  "includes_str s p = sublist p s"

text \<open>Upper-case letters below 256: A to Z, and U+00C0 to U+00DE without the
  multiplication sign U+00D7. Each has its lower-case form 32 units above.\<close>

definition is_upper_unit :: "char \<Rightarrow> bool" where
  "is_upper_unit c = (let n = (of_char c :: nat) in
     (65 \<le> n \<and> n \<le> 90) \<or> (192 \<le> n \<and> n \<le> 222 \<and> n \<noteq> 215))"

definition lower_unit :: "char \<Rightarrow> char" where
  "lower_unit c = (if is_upper_unit c then char_of ((of_char c :: nat) + 32) else c)"

definition toLowerCase :: "string \<Rightarrow> string" where
  "toLowerCase s = map lower_unit s"

text \<open>White space as \<^verbatim>\<open>trim\<close> sees it, below 256: tab, line feed, vertical tab, form
  feed, carriage return, space and the no-break space.\<close>

definition is_ws :: "char \<Rightarrow> bool" where
  "is_ws c = (c \<in> set [CHR 0x09, CHR 0x0A, CHR 0x0B, CHR 0x0C, CHR 0x0D, CHR 0x20, CHR 0xA0])"

definition trim :: "string \<Rightarrow> string" where
  "trim s = rev (dropWhile is_ws (rev (dropWhile is_ws s)))"

text \<open>\<^verbatim>\<open>s.split(sep)\<close>: the occurrences of the separator are found from the left and do
  not overlap; \<open>cur\<close> holds the piece being read, reversed. An empty separator splits
  into single units.\<close>

function split_from :: "string \<Rightarrow> string \<Rightarrow> string \<Rightarrow> string list" where
  "split_from sep cur [] = [rev cur]"
| "split_from sep cur (c # cs) =
     (if sep \<noteq> [] \<and> prefix sep (c # cs)
      then rev cur # split_from sep [] (drop (length sep) (c # cs))
      else split_from sep (c # cur) cs)"
  by pat_completeness auto
termination
  by (relation "measure (\<lambda>(sep, cur, s). length s)") auto

definition split :: "string \<Rightarrow> string \<Rightarrow> string list" where
  "split s sep = (if sep = [] then map (\<lambda>c. [c]) s else split_from sep [] s)"

definition slice :: "string \<Rightarrow> nat \<Rightarrow> string" where
  "slice s n = drop n s"

text \<open>\<^verbatim>\<open>s.replace(pat, rep)\<close> with a string pattern replaces the first occurrence only.\<close>

fun replace :: "string \<Rightarrow> string \<Rightarrow> string \<Rightarrow> string" where
  "replace [] pat rep = (if pat = [] then rep else [])"
| "replace (c # cs) pat rep =
     (if prefix pat (c # cs) then rep @ drop (length pat) (c # cs)
      else c # replace cs pat rep)"

section \<open>Fuzzy matcher (src/cli/commands.ts)\<close>

text \<open>The loop of \<^verbatim>\<open>fuzzyMatch\<close>: \<open>ti\<close> walks over the target while \<open>qi < q.length\<close>, and
  \<open>qi\<close> advances on each unit equal to \<open>q[qi]\<close>. The function returns the final \<open>qi\<close>.\<close>

fun seq_loop :: "string \<Rightarrow> string \<Rightarrow> nat \<Rightarrow> nat" where
  "seq_loop [] q qi = qi"
| "seq_loop (c # t) q qi =
     (if qi < length q
      then (if c = q ! qi then seq_loop t q (qi + 1) else seq_loop t q qi)
      else qi)"

definition fuzzyMatch :: "string \<Rightarrow> string \<Rightarrow> int" where
  "fuzzyMatch query target =
     (let q = toLowerCase query; t = toLowerCase target in
      if t = q then 1000
      else if startsWith t q then 500
      else if includes_str t q then 200
      else if seq_loop t q 0 = length q then 50
      else 0)"

text \<open>The tiers as the specification words them, on the lower-cased pair: 4 for equality,
  3 for a prefix, 2 for a contiguous substring, 1 for an in-order subsequence, 0 for no
  match; the first tier that holds is the pair's tier.\<close>

definition spec_tier :: "string \<Rightarrow> string \<Rightarrow> nat" where
  "spec_tier query target =
     (let q = toLowerCase query; t = toLowerCase target in
      if t = q then 4
      else if prefix q t then 3
      else if sublist q t then 2
      else if subseq q t then 1
      else 0)"

definition spec_tier_score :: "nat \<Rightarrow> int" where
  "spec_tier_score k =
     (if k = 4 then 1000 else if k = 3 then 500 else if k = 2 then 200
      else if k = 1 then 50 else 0)"

section \<open>Data model (src/git/types.ts)\<close>

record Worktree =
  path :: string
  head :: string
  branch :: "string option"
  isMain :: bool
  isLocked :: bool
  isPrunable :: bool
  isDirty :: "bool option"

record Project =
  name :: string
  gitDir :: string
  mainWorktree :: string
  worktrees :: "Worktree list"

record WorktreeCreateOptions =
  basePath :: string
  opt_branch :: string
  startPoint :: "string option"
  createBranch :: bool

datatype GitErrorCode =
  WORKTREE_EXISTS | BRANCH_EXISTS | DIRTY_WORKTREE | NOT_A_REPO | WORKTREE_NOT_FOUND
  | COMMAND_FAILED

record GitError =
  code :: GitErrorCode
  message :: string
  stderr :: string

text \<open>\<^verbatim>\<open>GitResult<T>\<close>: \<open>Inr\<close> is \<^verbatim>\<open>{ ok: true, value }\<close>, \<open>Inl\<close> is
  \<^verbatim>\<open>{ ok: false, error }\<close>.\<close>

type_synonym 'a GitResult = "GitError + 'a"

definition ok :: "'a \<Rightarrow> 'a GitResult" where
  "ok v = Inr v"

definition err :: "GitErrorCode \<Rightarrow> string \<Rightarrow> 'a GitResult" where
  "err c m = Inl \<lparr>code = c, message = m, stderr = []\<rparr>"

section \<open>Porcelain parser (src/git/worktree.ts)\<close>

text \<open>The variables a block starts with: \<^verbatim>\<open>path = ""\<close>, \<^verbatim>\<open>head = ""\<close>, \<^verbatim>\<open>branch = null\<close>
  and the three flags false. They are the fields of the record pushed at the end, so the
  record is the loop's state.\<close>

definition block_init :: Worktree where
  "block_init = \<lparr>path = [], head = [], branch = None, isMain = False, isLocked = False,
     isPrunable = False, isDirty = None\<rparr>"

definition parseLine :: "Worktree \<Rightarrow> string \<Rightarrow> Worktree" where
  "parseLine wt line =
     (if startsWith line ''worktree '' then wt\<lparr>path := slice line (length ''worktree '')\<rparr>
      else if startsWith line ''HEAD '' then wt\<lparr>head := slice line (length ''HEAD '')\<rparr>
      else if startsWith line ''branch ''
        then wt\<lparr>branch := Some (replace (slice line (length ''branch '')) ''refs/heads/'' [])\<rparr>
      else if line = ''bare'' then wt\<lparr>isMain := True\<rparr>
      else if line = ''locked'' then wt\<lparr>isLocked := True\<rparr>
      else if line = ''prunable'' then wt\<lparr>isPrunable := True\<rparr>
      else if line = ''detached'' then wt\<lparr>branch := None\<rparr>
      else wt)"

definition parseLines :: "string list \<Rightarrow> Worktree" where
  "parseLines lines = foldl parseLine block_init lines"

text \<open>One turn of the loop over the blocks; \<open>wts\<close> is the array built so far.\<close>

definition parseBlock :: "Worktree list \<Rightarrow> string \<Rightarrow> Worktree list" where
  "parseBlock wts block =
     (if trim block = [] then wts
      else
        let wt = parseLines (split (trim block) [CHR 0x0A]);
            wt' = (if length wts = 0 then wt\<lparr>isMain := True\<rparr> else wt)
        in if path wt' \<noteq> [] then wts @ [wt'] else wts)"

definition parsePorcelain :: "string \<Rightarrow> Worktree list" where
  "parsePorcelain output = foldl parseBlock [] (split (trim output) [CHR 0x0A, CHR 0x0A])"

text \<open>The wire format, for stating what the parser returns: a text is its blocks joined by
  one blank line, a block is its lines joined by a line feed.\<close>

fun join_with :: "string \<Rightarrow> string list \<Rightarrow> string" where
  "join_with sep [] = []"
| "join_with sep [x] = x"
| "join_with sep (x # y # ys) = x @ sep @ join_with sep (y # ys)"

definition porcelain_text :: "string list list \<Rightarrow> string" where
  "porcelain_text blocks =
     join_with [CHR 0x0A, CHR 0x0A] (map (join_with [CHR 0x0A]) blocks)"

text \<open>A well-formed block: at least one line; no line is empty or holds a line feed; the
  block neither starts nor ends with white space; some line is a \<^verbatim>\<open>worktree <path>\<close> line,
  and none has an empty path.\<close>

definition wf_block :: "string list \<Rightarrow> bool" where
  "wf_block lines =
     (lines \<noteq> []
      \<and> list_all (\<lambda>l. l \<noteq> [] \<and> CHR 0x0A \<notin> set l) lines
      \<and> \<not> is_ws (hd (hd lines)) \<and> \<not> is_ws (last (last lines))
      \<and> list_ex (\<lambda>l. startsWith l ''worktree '') lines
      \<and> list_all (\<lambda>l. l \<noteq> ''worktree '') lines)"

text \<open>The path a block names: that of its last \<^verbatim>\<open>worktree\<close> line.\<close>

definition block_path :: "string list \<Rightarrow> string" where
  "block_path lines = slice (last (filter (\<lambda>l. startsWith l ''worktree '') lines)) 9"

text \<open>The record the parser makes of a block given as its lines; the first record of the
  result is flagged main whatever its lines say.\<close>

definition block_record :: "bool \<Rightarrow> string list \<Rightarrow> Worktree" where
  "block_record first lines =
     (if first then (parseLines lines)\<lparr>isMain := True\<rparr> else parseLines lines)"

text \<open>A text with no blank line inside: no two line feeds in a row, none at the end.\<close>

fun blank_free :: "string \<Rightarrow> bool" where
  "blank_free [] = True"
| "blank_free [c] = (c \<noteq> CHR 0x0A)"
| "blank_free (c # d # s) = (\<not> (c = CHR 0x0A \<and> d = CHR 0x0A) \<and> blank_free (d # s))"

section \<open>Error classifier (src/git/worktree.ts)\<close>

definition classifyGitError :: "string \<Rightarrow> GitError" where
  "classifyGitError se =
     (let s = toLowerCase se in
      if includes_str s ''already exists'' \<or> includes_str s ''already a worktree''
        then \<lparr>code = WORKTREE_EXISTS, message = ''Worktree already exists'', stderr = se\<rparr>
      else if includes_str s ''already checked out'' \<or> includes_str s ''is already checked out''
          \<or> includes_str s ''already used by worktree''
        then \<lparr>code = BRANCH_EXISTS,
              message = ''Branch is already checked out in another worktree'', stderr = se\<rparr>
      else if includes_str s ''has changes''
          \<or> includes_str s ''contains modified or untracked files''
          \<or> includes_str s ''is dirty''
        then \<lparr>code = DIRTY_WORKTREE, message = ''Worktree has uncommitted changes'',
              stderr = se\<rparr>
      else if includes_str s ''not a git repository''
        then \<lparr>code = NOT_A_REPO, message = ''Not a git repository'', stderr = se\<rparr>
      else if includes_str s ''is not a valid worktree'' \<or> includes_str s ''is not a working tree''
        then \<lparr>code = WORKTREE_NOT_FOUND, message = ''Worktree not found'', stderr = se\<rparr>
      else \<lparr>code = COMMAND_FAILED, message = ''Git command failed'', stderr = se\<rparr>)"

section \<open>The host: subprocesses, file system, path library\<close>

text \<open>
  A subprocess run through the shell either exits with status 0 and its output text, or
  the call throws; \<^verbatim>\<open>extractStderr\<close> turns whatever was thrown into a string, which
  \<open>Exit_fail\<close> carries. The host is a parameter: \<open>git\<close> runs a command line in a state of
  the world \<open>'w\<close> and gives the outcome and the next state; \<open>glob_scan\<close> lists the entries
  of a directory, \<open>None\<close> when the scan throws. \<^verbatim>\<open>resolve\<close>, \<^verbatim>\<open>join\<close> and \<^verbatim>\<open>basename\<close> of
  \<^verbatim>\<open>node:path\<close>, \<^verbatim>\<open>process.cwd()\<close> and \<^verbatim>\<open>os.homedir()\<close> are fields too.
\<close>

datatype proc_result = Exit_ok string | Exit_fail string

record 'w host =
  git :: "'w \<Rightarrow> string list \<Rightarrow> proc_result \<times> 'w"
  glob_scan :: "'w \<Rightarrow> string \<Rightarrow> string list option"
  process_cwd :: string
  os_homedir :: string
  path_resolve :: "string \<Rightarrow> string \<Rightarrow> string"
  path_join :: "string \<Rightarrow> string \<Rightarrow> string"
  path_basename :: "string \<Rightarrow> string"

text \<open>An optional string in a condition: absent and empty are both false.\<close>

definition truthy :: "string option \<Rightarrow> bool" where
  "truthy x = (case x of None \<Rightarrow> False | Some s \<Rightarrow> s \<noteq> [])"

section \<open>Worktree operations (src/git/worktree.ts)\<close>

definition listArgs :: "string \<Rightarrow> string list" where
  "listArgs dir = [''git'', ''-C'', dir, ''worktree'', ''list'', ''--porcelain'']"

definition listWorktrees :: "'w host \<Rightarrow> 'w \<Rightarrow> string \<Rightarrow> Worktree list GitResult \<times> 'w" where
  "listWorktrees h w dir =
     (case git h w (listArgs dir) of
        (Exit_ok out, w') \<Rightarrow> (ok (parsePorcelain out), w')
      | (Exit_fail se, w') \<Rightarrow> (Inl (classifyGitError se), w'))"

text \<open>The four shapes of the creation command.\<close>

definition addArgs :: "string \<Rightarrow> WorktreeCreateOptions \<Rightarrow> string list" where
  "addArgs dir opts =
     (if createBranch opts \<and> truthy (startPoint opts)
        then [''git'', ''-C'', dir, ''worktree'', ''add'', ''-b'', opt_branch opts, basePath opts]
               @ (case startPoint opts of Some sp \<Rightarrow> [sp] | None \<Rightarrow> [])
      else if createBranch opts
        then [''git'', ''-C'', dir, ''worktree'', ''add'', ''-b'', opt_branch opts, basePath opts]
      else if truthy (startPoint opts)
        then [''git'', ''-C'', dir, ''worktree'', ''add'', basePath opts, opt_branch opts]
               @ (case startPoint opts of Some sp \<Rightarrow> [sp] | None \<Rightarrow> [])
      else [''git'', ''-C'', dir, ''worktree'', ''add'', basePath opts, opt_branch opts])"

definition addWorktree ::
  "'w host \<Rightarrow> 'w \<Rightarrow> string \<Rightarrow> WorktreeCreateOptions \<Rightarrow> Worktree GitResult \<times> 'w" where
  "addWorktree h w dir opts =
     (case git h w (addArgs dir opts) of
        (Exit_fail se, w1) \<Rightarrow> (Inl (classifyGitError se), w1)
      | (Exit_ok out, w1) \<Rightarrow>
          (case listWorktrees h w1 dir of
             (Inl e, w2) \<Rightarrow> (Inl e, w2)
           | (Inr wts, w2) \<Rightarrow>
               (case find (\<lambda>wt. path wt = basePath opts) wts of
                  None \<Rightarrow>
                    (err COMMAND_FAILED
                       (''Worktree was created but not found in list at '' @ basePath opts), w2)
                | Some newWt \<Rightarrow> (ok newWt, w2))))"

definition removeWorktree ::
  "'w host \<Rightarrow> 'w \<Rightarrow> string \<Rightarrow> string \<Rightarrow> bool \<Rightarrow> unit GitResult \<times> 'w" where
  "removeWorktree h w dir p force =
     (case git h w (if force then [''git'', ''-C'', dir, ''worktree'', ''remove'', ''--force'', p]
                    else [''git'', ''-C'', dir, ''worktree'', ''remove'', p]) of
        (Exit_ok out, w') \<Rightarrow> (ok (), w')
      | (Exit_fail se, w') \<Rightarrow> (Inl (classifyGitError se), w'))"

definition pruneWorktrees :: "'w host \<Rightarrow> 'w \<Rightarrow> string \<Rightarrow> unit GitResult \<times> 'w" where
  "pruneWorktrees h w dir =
     (case git h w [''git'', ''-C'', dir, ''worktree'', ''prune''] of
        (Exit_ok out, w') \<Rightarrow> (ok (), w')
      | (Exit_fail se, w') \<Rightarrow> (Inl (classifyGitError se), w'))"

definition statusArgs :: "string \<Rightarrow> string list" where
  "statusArgs worktreePath = [''git'', ''-C'', worktreePath, ''status'', ''--porcelain'']"

definition isWorktreeDirty :: "'w host \<Rightarrow> 'w \<Rightarrow> string \<Rightarrow> bool \<times> 'w" where
  "isWorktreeDirty h w worktreePath =
     (case git h w (statusArgs worktreePath) of
        (Exit_ok out, w') \<Rightarrow> (length (trim out) > 0, w')
      | (Exit_fail se, w') \<Rightarrow> (True, w'))"

section \<open>Project loader and discovery (src/git/repo.ts, src/config)\<close>

definition revParseArgs :: "string \<Rightarrow> string list" where
  "revParseArgs p = [''git'', ''-C'', p, ''rev-parse'', ''--git-dir'']"

definition detectGitDir :: "'w host \<Rightarrow> 'w \<Rightarrow> string \<Rightarrow> string option \<times> 'w" where
  "detectGitDir h w p =
     (case git h w (revParseArgs p) of
        (Exit_ok out, w') \<Rightarrow>
          (let g = trim out in
           if g = [] then None
           else if g = ''.'' \<or> g = ''.git'' then Some (path_resolve h p g)
           else Some (path_resolve h p g), w')
      | (Exit_fail se, w') \<Rightarrow> (None, w'))"

definition loadProject :: "'w host \<Rightarrow> 'w \<Rightarrow> string \<Rightarrow> Project option \<times> 'w" where
  "loadProject h w p =
     (case detectGitDir h w p of
        (None, w1) \<Rightarrow> (None, w1)
      | (Some g, w1) \<Rightarrow>
          if g = [] then (None, w1)
          else
            (case listWorktrees h w1 p of
               (result, w2) \<Rightarrow>
                 let wts = (case result of Inr v \<Rightarrow> v | Inl e \<Rightarrow> []);
                     mainWt = (case find isMain wts of Some wt \<Rightarrow> path wt | None \<Rightarrow> p)
                 in (Some \<lparr>name = path_basename h mainWt, gitDir = g, mainWorktree = mainWt,
                            worktrees = wts\<rparr>, w2)))"

record ProjectConfig =
  pc_name :: string
  pc_path :: string

text \<open>Of \<^verbatim>\<open>FishTreeConfig\<close>, the two fields discovery reads.\<close>

record FishTreeConfig =
  worktreeBase :: string
  cfg_projects :: "ProjectConfig list"

definition expandPath :: "'w host \<Rightarrow> string \<Rightarrow> string" where
  "expandPath h p =
     (if startsWith p ''~/'' \<or> p = ''~'' then path_join h (os_homedir h) (slice p 1) else p)"

text \<open>An element of \<^verbatim>\<open>allPaths\<close>: a path and, for a configured entry, a name.\<close>

record PathEntry =
  entry_path :: string
  entry_name :: "string option"

text \<open>The assembly loop of \<^verbatim>\<open>discoverProjects\<close> over \<^verbatim>\<open>allPaths[i]\<close> and \<^verbatim>\<open>loaded[i]\<close>, with
  the set \<open>seen\<close> and the array \<open>ps\<close> of accepted projects as its state.\<close>

fun assemble_loop ::
  "PathEntry list \<Rightarrow> Project option list \<Rightarrow> string set \<Rightarrow> Project list \<Rightarrow> Project list" where
  "assemble_loop (e # es) (l # ls) seen ps =
     (case l of
        None \<Rightarrow> assemble_loop es ls seen ps
      | Some project \<Rightarrow>
          if gitDir project \<notin> seen
          then
            let project' = (case entry_name e of
                              None \<Rightarrow> project
                            | Some n \<Rightarrow> if n \<noteq> [] then project\<lparr>name := n\<rparr> else project)
            in assemble_loop es ls (insert (gitDir project) seen) (ps @ [project'])
          else assemble_loop es ls seen ps)"
| "assemble_loop es ls seen ps = ps"

text \<open>The loads of the configured and scanned paths are issued together; each reads the
  host as it is after the load of the current directory.\<close>

definition discoverProjects :: "'w host \<Rightarrow> 'w \<Rightarrow> FishTreeConfig \<Rightarrow> Project list" where
  "discoverProjects h w config =
     (case loadProject h w (process_cwd h) of
        (cwdProject, w1) \<Rightarrow>
          let seen = (case cwdProject of Some p \<Rightarrow> {gitDir p} | None \<Rightarrow> {});
              configuredPaths =
                map (\<lambda>pc. \<lparr>entry_path = expandPath h (pc_path pc), entry_name = Some (pc_name pc)\<rparr>)
                  (cfg_projects config);
              base = expandPath h (worktreeBase config);
              autoPaths = (case glob_scan h w1 base of
                             Some entries \<Rightarrow>
                               map (\<lambda>entry. \<lparr>entry_path = path_resolve h base entry,
                                              entry_name = None\<rparr>) entries
                           | None \<Rightarrow> []);
              allPaths = configuredPaths @ autoPaths;
              loaded = map (\<lambda>p. fst (loadProject h w1 (entry_path p))) allPaths;
              ps = (case cwdProject of Some p \<Rightarrow> [p] | None \<Rightarrow> [])
          in assemble_loop allPaths loaded seen ps)"

text \<open>The project loaded for the \<open>k\<close>-th configured entry, in the host as the load of the
  current directory leaves it.\<close>

definition cfg_load :: "'w host \<Rightarrow> 'w \<Rightarrow> FishTreeConfig \<Rightarrow> nat \<Rightarrow> Project option" where
  "cfg_load h w config k =
     fst (loadProject h (snd (loadProject h w (process_cwd h)))
            (expandPath h (pc_path (cfg_projects config ! k))))"

section \<open>Application state machine (src/state/store.ts)\<close>

datatype ListItem = ProjectItem Project | WorktreeItem Worktree Project

datatype View = ListView | CreateView | ConfirmDeleteView | ProjectPickerView | HelpView

record AppState =
  projects :: "Project list"
  activeProject :: "Project option"
  selectedIndex :: int
  filterText :: string
  filteredItems :: "ListItem list"
  view :: View
  loading :: bool
  error :: "string option"
  selectedPath :: "string option"
  collapsedProjects :: "string set"
  detailPaneVisible :: bool

datatype AppAction =
  SET_PROJECTS "Project list"
  | SELECT_PROJECT Project
  | MOVE_SELECTION int
  | SET_FILTER string
  | SELECT_WORKTREE
  | TOGGLE_PROJECT string
  | SHOW_CREATE
  | SHOW_DELETE
  | SHOW_HELP
  | SHOW_LIST
  | SET_LOADING bool
  | SET_ERROR "string option"
  | REFRESH_WORKTREES "Project list"

definition worktreeMatches :: "string \<Rightarrow> Project \<Rightarrow> Worktree \<Rightarrow> bool" where
  "worktreeMatches query project wt =
     (query = []
      \<or> (case branch wt of Some b \<Rightarrow> includes_str (toLowerCase b) query | None \<Rightarrow> False)
      \<or> includes_str (toLowerCase (name project)) query)"

fun build_loop :: "Project list \<Rightarrow> string set \<Rightarrow> string \<Rightarrow> ListItem list" where
  "build_loop [] collapsed query = []"
| "build_loop (project # rest) collapsed query =
     (let projectMatches = (query = [] \<or> includes_str (toLowerCase (name project)) query);
          matchingWorktrees = filter (worktreeMatches query project) (worktrees project)
      in if \<not> projectMatches \<and> length matchingWorktrees = 0
         then build_loop rest collapsed query
         else ProjectItem project
              # (if name project \<notin> collapsed
                 then map (\<lambda>wt. WorktreeItem wt project)
                        (if query \<noteq> [] then matchingWorktrees else worktrees project)
                 else [])
              @ build_loop rest collapsed query)"

definition buildFilteredItems :: "Project list \<Rightarrow> string set \<Rightarrow> string \<Rightarrow> ListItem list" where
  "buildFilteredItems ps collapsed ft = build_loop ps collapsed (toLowerCase ft)"

text \<open>\<^verbatim>\<open>Array.prototype.findIndex\<close>: the first index whose element satisfies the predicate,
  or -1.\<close>

fun findIndex :: "('a \<Rightarrow> bool) \<Rightarrow> 'a list \<Rightarrow> int" where
  "findIndex P [] = - 1"
| "findIndex P (x # xs) =
     (if P x then 0 else (let r = findIndex P xs in if r < 0 then - 1 else r + 1))"

text \<open>\<^verbatim>\<open>xs[i]\<close> for a number \<open>i\<close>: \<^verbatim>\<open>undefined\<close> outside the array.\<close>

definition item_at :: "'a list \<Rightarrow> int \<Rightarrow> 'a option" where
  "item_at xs i = (if 0 \<le> i \<and> i < int (length xs) then Some (xs ! nat i) else None)"

definition is_worktree_item :: "ListItem \<Rightarrow> bool" where
  "is_worktree_item i = (case i of WorktreeItem wt p \<Rightarrow> True | ProjectItem p \<Rightarrow> False)"

definition initialState :: "Project list \<Rightarrow> AppState" where
  "initialState ps =
     (let collapsed = {};
          items = buildFilteredItems ps collapsed [];
          firstWorktreeIndex = findIndex is_worktree_item items
      in \<lparr>projects = ps,
          activeProject = (case ps of [] \<Rightarrow> None | p # rest \<Rightarrow> Some p),
          selectedIndex = (if firstWorktreeIndex \<ge> 0 then firstWorktreeIndex else 0),
          filterText = [],
          filteredItems = items,
          view = ListView,
          loading = False,
          error = None,
          selectedPath = None,
          collapsedProjects = collapsed,
          detailPaneVisible = True\<rparr>)"

definition set_projects :: "AppState \<Rightarrow> Project list \<Rightarrow> AppState" where
  "set_projects state ps =
     (let items = buildFilteredItems ps (collapsedProjects state) (filterText state);
          idx = min (selectedIndex state) (max 0 (int (length items) - 1))
      in state\<lparr>projects := ps, filteredItems := items, selectedIndex := idx, loading := False\<rparr>)"

fun appReducer :: "AppState \<Rightarrow> AppAction \<Rightarrow> AppState" where
  "appReducer state (SET_PROJECTS ps) = set_projects state ps"
| "appReducer state (REFRESH_WORKTREES ps) = set_projects state ps"
| "appReducer state (SELECT_PROJECT project) = state\<lparr>activeProject := Some project\<rparr>"
| "appReducer state (MOVE_SELECTION delta) =
     (if length (filteredItems state) = 0 then state
      else
        let next = selectedIndex state + delta;
            next1 = (if next < 0 then int (length (filteredItems state)) - 1 else next);
            next2 = (if next1 \<ge> int (length (filteredItems state)) then 0 else next1)
        in state\<lparr>selectedIndex := next2\<rparr>)"
| "appReducer state (SET_FILTER txt) =
     (let items = buildFilteredItems (projects state) (collapsedProjects state) txt;
          idx = min (selectedIndex state) (max 0 (int (length items) - 1))
      in state\<lparr>filterText := txt, filteredItems := items, selectedIndex := idx\<rparr>)"
| "appReducer state SELECT_WORKTREE =
     (case item_at (filteredItems state) (selectedIndex state) of
        Some (WorktreeItem wt p) \<Rightarrow> state\<lparr>selectedPath := Some (path wt)\<rparr>
      | Some (ProjectItem p) \<Rightarrow> state
      | None \<Rightarrow> state)"
| "appReducer state (TOGGLE_PROJECT projectName) =
     (let next = (if projectName \<in> collapsedProjects state
                  then collapsedProjects state - {projectName}
                  else insert projectName (collapsedProjects state));
          items = buildFilteredItems (projects state) next (filterText state);
          idx = min (selectedIndex state) (max 0 (int (length items) - 1))
      in state\<lparr>collapsedProjects := next, filteredItems := items, selectedIndex := idx\<rparr>)"
| "appReducer state SHOW_CREATE = state\<lparr>view := CreateView\<rparr>"
| "appReducer state SHOW_DELETE =
     (case item_at (filteredItems state) (selectedIndex state) of
        Some (WorktreeItem wt p) \<Rightarrow> if isMain wt then state else state\<lparr>view := ConfirmDeleteView\<rparr>
      | Some (ProjectItem p) \<Rightarrow> state
      | None \<Rightarrow> state)"
| "appReducer state SHOW_HELP = state\<lparr>view := HelpView\<rparr>"
| "appReducer state SHOW_LIST =
     (let resetItems = buildFilteredItems (projects state) (collapsedProjects state) []
      in state\<lparr>view := ListView, filterText := [], filteredItems := resetItems, error := None\<rparr>)"
| "appReducer state (SET_LOADING b) = state\<lparr>loading := b\<rparr>"
| "appReducer state (SET_ERROR e) = state\<lparr>error := e\<rparr>"

text \<open>The states the browser can be in: the initial state of some project list, and what
  the reducer makes of a reachable state.\<close>

inductive reachable :: "AppState \<Rightarrow> bool" where
  init: "reachable (initialState ps)"
| step: "reachable s \<Longrightarrow> reachable (appReducer s a)"

text \<open>The invariant of the reducer: the flat list is the one derived from the projects,
  the collapsed set and the filter text, and the cursor is a valid index of it, or 0.
  \<^verbatim>\<open>SHOW_LIST\<close> rebuilds the list without clamping the cursor; it keeps the invariant
  because the list it builds, for the empty filter, is no shorter than the one before.\<close>

definition cursor_inv :: "AppState \<Rightarrow> bool" where
  "cursor_inv s =
     (filteredItems s = buildFilteredItems (projects s) (collapsedProjects s) (filterText s)
      \<and> 0 \<le> selectedIndex s
      \<and> selectedIndex s \<le> max 0 (int (length (filteredItems s)) - 1))"

section \<open>A sample host\<close>

text \<open>
  A small host for evaluating the operations on concrete inputs. Its world counts the
  commands run. The repository \<^verbatim>\<open>/repo\<close> lists one worktree, on branch main; creating a
  worktree in it succeeds, yet the listing never shows the new entry. \<^verbatim>\<open>/broken\<close> answers
  \<^verbatim>\<open>rev-parse\<close> but nothing else, and every other command fails. The path functions are
  stand-ins: \<open>sample_resolve\<close> joins with a slash, \<open>sample_basename\<close> takes what follows the
  last slash.
\<close>

definition sample_listing :: string where
  "sample_listing =
     ''worktree /repo'' @ [CHR 0x0A] @ ''HEAD 0123456789abcdef0123456789abcdef01234567''
     @ [CHR 0x0A] @ ''branch refs/heads/main'' @ [CHR 0x0A]"

definition sample_git :: "nat \<Rightarrow> string list \<Rightarrow> proc_result \<times> nat" where
  "sample_git w args =
     (if args = listArgs ''/repo'' then (Exit_ok sample_listing, w + 1)
      else if take 5 args = [''git'', ''-C'', ''/repo'', ''worktree'', ''add''] then (Exit_ok [], w + 1)
      else if args = revParseArgs ''/repo'' \<or> args = revParseArgs ''/broken''
        then (Exit_ok (''.git'' @ [CHR 0x0A]), w + 1)
      else if args = statusArgs ''/repo'' then (Exit_ok [], w + 1)
      else (Exit_fail ''fatal: not a git repository (or any of the parent directories): .git'',
            w + 1))"

definition sample_resolve :: "string \<Rightarrow> string \<Rightarrow> string" where
  "sample_resolve base p = (if startsWith p ''/'' then p else base @ ''/'' @ p)"

definition sample_basename :: "string \<Rightarrow> string" where
  "sample_basename p = last (split p ''/'')"

definition sample_host :: "nat host" where
  "sample_host =
     \<lparr>git = sample_git, glob_scan = (\<lambda>w dir. None), process_cwd = ''/tmp'',
      os_homedir = ''/home/u'', path_resolve = sample_resolve, path_join = sample_resolve,
      path_basename = sample_basename\<rparr>"

definition sample_worktree :: "string \<Rightarrow> string \<Rightarrow> bool \<Rightarrow> Worktree" where
  "sample_worktree p b m =
     \<lparr>path = p, head = ''0123456789abcdef0123456789abcdef01234567'', branch = Some b,
      isMain = m, isLocked = False, isPrunable = False, isDirty = None\<rparr>"

definition sample_project :: Project where
  "sample_project =
     \<lparr>name = ''project-a'', gitDir = ''/tmp/project-a/.git'',
      mainWorktree = ''/tmp/project-a/main'',
      worktrees = [sample_worktree ''/tmp/project-a/main'' ''main'' True,
                   sample_worktree ''/tmp/project-a/feat-auth'' ''feat-auth'' False,
                   sample_worktree ''/tmp/project-a/fix-typo'' ''fix-typo'' False]\<rparr>"

text \<open>Blocks of a listing, as lines: a main checkout on a branch, a second worktree with
  a detached head, a locked worktree whose block has a \<^verbatim>\<open>branch\<close> line and then a
  \<^verbatim>\<open>detached\<close> line, and one whose block has the two lines the other way round.\<close>

definition sample_block_main :: "string list" where
  "sample_block_main =
     [''worktree /repo'', ''HEAD 0123456789abcdef0123456789abcdef01234567'',
      ''branch refs/heads/main'']"

definition sample_block_detached :: "string list" where
  "sample_block_detached =
     [''worktree /repo/wt'', ''HEAD 89abcdef0123456789abcdef0123456789abcdef'', ''detached'']"

definition sample_block_both :: "string list" where
  "sample_block_both =
     [''worktree /repo/wt'', ''HEAD 89abcdef0123456789abcdef0123456789abcdef'',
      ''branch refs/heads/feat'', ''detached'', ''locked'']"

definition sample_block_after :: "string list" where
  "sample_block_after =
     [''worktree /repo/wt2'', ''HEAD 89abcdef0123456789abcdef0123456789abcdef'',
      ''detached'', ''branch refs/heads/fix'', ''locked'']"

text \<open>What \<open>loadProject\<close> makes of \<^verbatim>\<open>/repo\<close> in the sample host, and a configuration
  naming that repository twice.\<close>

definition sample_repo_project :: Project where
  "sample_repo_project =
     \<lparr>name = ''repo'', gitDir = ''/repo/.git'', mainWorktree = ''/repo'',
      worktrees = [sample_worktree ''/repo'' ''main'' True]\<rparr>"

definition sample_config :: FishTreeConfig where
  "sample_config =
     \<lparr>worktreeBase = ''~/.worktrees'',
      cfg_projects = [\<lparr>pc_name = ''a'', pc_path = ''/repo''\<rparr>,
                      \<lparr>pc_name = ''b'', pc_path = ''/repo''\<rparr>]\<rparr>"

section \<open>Properties of the string operations\<close>

lemma lower_unit_idem: "lower_unit (lower_unit c) = lower_unit c"
  by (auto simp add: lower_unit_def is_upper_unit_def Let_def)

lemma toLowerCase_idem: "toLowerCase (toLowerCase s) = toLowerCase s"
  by (simp add: toLowerCase_def lower_unit_idem)

section \<open>Properties of the fuzzy matcher\<close>

lemma seq_loop_subseq:
  "qi \<le> length q \<Longrightarrow> (seq_loop t q qi = length q) = subseq (drop qi q) t"
proof (induction t arbitrary: qi)
  case Nil
  have "subseq (drop qi q) [] = (drop qi q = [])"
    by (cases "drop qi q") simp_all
  with Nil show ?case by auto
next
  case (Cons c t)
  show ?case
  proof (cases "qi < length q")
    case True
    then have d: "drop qi q = q ! qi # drop (Suc qi) q"
      by (simp add: Cons_nth_drop_Suc)
    from True have le: "Suc qi \<le> length q" by simp
    show ?thesis
    proof (cases "c = q ! qi")
      case True
      with \<open>qi < length q\<close> Cons.IH [OF le] d show ?thesis by simp
    next
      case False
      with \<open>qi < length q\<close> Cons.IH [OF Cons.prems] d show ?thesis
        by simp
    qed
  next
    case False
    with Cons.prems have "qi = length q" by simp
    then show ?thesis by simp
  qed
qed

lemma fuzzyMatch_spec: "fuzzyMatch query target = spec_tier_score (spec_tier query target)"
  using seq_loop_subseq [of 0 "toLowerCase query" "toLowerCase target"]
  by (simp add: fuzzyMatch_def spec_tier_def spec_tier_score_def Let_def
      startsWith_def includes_str_def)

lemma spec_tier_score_mono: "j \<le> k \<Longrightarrow> k \<le> 4 \<Longrightarrow> spec_tier_score j \<le> spec_tier_score k"
  by (auto simp: spec_tier_score_def)

lemma spec_tier_le4: "spec_tier query target \<le> 4"
  by (simp add: spec_tier_def Let_def)

text \<open>
  C6. The score is case-insensitive and is the score of the first tier that holds: 1000
  for equality of the lower-cased strings, 500 when the target starts with the query, 200
  when it contains it, 50 when the query is an in-order subsequence, 0 otherwise. Hence a
  pair of a higher tier never scores below a pair of a lower tier, a pair for which a
  tier holds scores at least that tier's score, and no score is negative.
\<close>

theorem fuzzyMatch_tiers:
  "fuzzyMatch query target =
     (if toLowerCase target = toLowerCase query then 1000
      else if prefix (toLowerCase query) (toLowerCase target) then 500
      else if sublist (toLowerCase query) (toLowerCase target) then 200
      else if subseq (toLowerCase query) (toLowerCase target) then 50
      else 0)
   \<and> fuzzyMatch (toLowerCase query) (toLowerCase target) = fuzzyMatch query target
   \<and> 0 \<le> fuzzyMatch query target
   \<and> (prefix (toLowerCase query) (toLowerCase target) \<longrightarrow> 500 \<le> fuzzyMatch query target)
   \<and> (sublist (toLowerCase query) (toLowerCase target) \<longrightarrow> 200 \<le> fuzzyMatch query target)
   \<and> (subseq (toLowerCase query) (toLowerCase target) \<longrightarrow> 50 \<le> fuzzyMatch query target)
   \<and> (spec_tier query' target' \<le> spec_tier query target
        \<longrightarrow> fuzzyMatch query' target' \<le> fuzzyMatch query target)"
proof -
  have a: "fuzzyMatch query target =
     (if toLowerCase target = toLowerCase query then 1000
      else if prefix (toLowerCase query) (toLowerCase target) then 500
      else if sublist (toLowerCase query) (toLowerCase target) then 200
      else if subseq (toLowerCase query) (toLowerCase target) then 50
      else 0)"
    by (simp add: fuzzyMatch_spec spec_tier_def spec_tier_score_def Let_def)
  have b: "fuzzyMatch (toLowerCase query) (toLowerCase target) = fuzzyMatch query target"
    by (simp add: fuzzyMatch_def toLowerCase_idem)
  have c: "0 \<le> fuzzyMatch query target"
    by (simp add: a)
  have d: "spec_tier query' target' \<le> spec_tier query target
        \<longrightarrow> fuzzyMatch query' target' \<le> fuzzyMatch query target"
    using spec_tier_score_mono [of "spec_tier query' target'" "spec_tier query target"]
      spec_tier_le4 [of query target]
    by (simp add: fuzzyMatch_spec)
  have e: "prefix (toLowerCase query) (toLowerCase target) \<longrightarrow> 500 \<le> fuzzyMatch query target"
    by (simp add: a)
  have f: "sublist (toLowerCase query) (toLowerCase target) \<longrightarrow> 200 \<le> fuzzyMatch query target"
    by (simp add: a)
  have g: "subseq (toLowerCase query) (toLowerCase target) \<longrightarrow> 50 \<le> fuzzyMatch query target"
    by (simp add: a)
  from a b c d e f g show ?thesis by blast
qed

theorem fuzzyMatch_tiers_witness:
  "spec_tier ''ft'' ''Feat-Auth'' \<le> spec_tier ''AUTH'' ''auth''
   \<and> fuzzyMatch ''ft'' ''Feat-Auth'' = 50 \<and> fuzzyMatch ''AUTH'' ''auth'' = 1000
   \<and> fuzzyMatch ''ft'' ''Feat-Auth'' \<le> fuzzyMatch ''AUTH'' ''auth''"
proof -
  have h: "spec_tier ''ft'' ''Feat-Auth'' \<le> spec_tier ''AUTH'' ''auth''"
    by code_simp
  have v1: "fuzzyMatch ''ft'' ''Feat-Auth'' = 50"
    by code_simp
  have v2: "fuzzyMatch ''AUTH'' ''auth'' = 1000"
    by code_simp
  from fuzzyMatch_tiers [of "''AUTH''" "''auth''" "''ft''" "''Feat-Auth''"] h
  have "fuzzyMatch ''ft'' ''Feat-Auth'' \<le> fuzzyMatch ''AUTH'' ''auth''"
    by blast
  with h v1 v2 show ?thesis by blast
qed

section \<open>Properties of the porcelain parser\<close>

lemma trim_id: "s \<noteq> [] \<Longrightarrow> \<not> is_ws (hd s) \<Longrightarrow> \<not> is_ws (last s) \<Longrightarrow> trim s = s"
proof -
  assume a: "s \<noteq> []" and b: "\<not> is_ws (hd s)" and c: "\<not> is_ws (last s)"
  from a b have 1: "dropWhile is_ws s = s"
    by (cases s) simp_all
  from a c have 2: "dropWhile is_ws (rev s) = rev s"
    by (cases "rev s") (simp_all add: hd_rev [symmetric])
  from 1 2 show ?thesis by (simp add: trim_def)
qed

lemma trim_Nil: "trim [] = []"
  by (simp add: trim_def)

lemma dropWhile_all: "list_all P t \<Longrightarrow> dropWhile P t = []"
  by (induction t) auto

lemma trim_all_ws: "list_all is_ws t \<Longrightarrow> trim t = []"
  by (simp add: trim_def dropWhile_all)

lemma trim_trailing:
  assumes "s \<noteq> []" and "\<not> is_ws (hd s)" and "\<not> is_ws (last s)" and "list_all is_ws t"
  shows "trim (s @ t) = s"
proof -
  from assms(1,2) have 1: "dropWhile is_ws (s @ t) = s @ t"
    by (cases s) simp_all
  from assms(4) have "\<And>x. x \<in> set (rev t) \<Longrightarrow> is_ws x"
    by (simp add: list_all_iff)
  then have "dropWhile is_ws (rev t @ rev s) = dropWhile is_ws (rev s)"
    by (rule dropWhile_append2)
  moreover from assms(1,3) have "dropWhile is_ws (rev s) = rev s"
    by (cases "rev s") (simp_all add: hd_rev [symmetric])
  ultimately show ?thesis
    using 1 by (simp add: trim_def)
qed

lemma split_line_step:
  "CHR 0x0A \<notin> set l \<Longrightarrow>
   split_from [CHR 0x0A] cur (l @ CHR 0x0A # rest) = (rev cur @ l) # split_from [CHR 0x0A] [] rest"
  by (induction l arbitrary: cur) auto

lemma split_line_last:
  "CHR 0x0A \<notin> set l \<Longrightarrow> split_from [CHR 0x0A] cur l = [rev cur @ l]"
  by (induction l arbitrary: cur) auto

lemma split_lines:
  "ls \<noteq> [] \<Longrightarrow> list_all (\<lambda>l. CHR 0x0A \<notin> set l) ls \<Longrightarrow>
   split_from [CHR 0x0A] [] (join_with [CHR 0x0A] ls) = ls"
proof (induction "[CHR 0x0A]" ls rule: join_with.induct)
  case 1
  then show ?case by simp
next
  case (2 x)
  then show ?case by (simp add: split_line_last)
next
  case (3 x y ys)
  then show ?case by (simp add: split_line_step)
qed

lemma split_block_step:
  "blank_free b \<Longrightarrow>
   split_from [CHR 0x0A, CHR 0x0A] cur (b @ CHR 0x0A # CHR 0x0A # rest)
     = (rev cur @ b) # split_from [CHR 0x0A, CHR 0x0A] [] rest"
  by (induction b arbitrary: cur rule: blank_free.induct) auto

lemma split_block_last:
  "blank_free b \<Longrightarrow> split_from [CHR 0x0A, CHR 0x0A] cur b = [rev cur @ b]"
  by (induction b arbitrary: cur rule: blank_free.induct) auto

lemma split_blocks:
  "bs \<noteq> [] \<Longrightarrow> list_all blank_free bs \<Longrightarrow>
   split_from [CHR 0x0A, CHR 0x0A] [] (join_with [CHR 0x0A, CHR 0x0A] bs) = bs"
proof (induction "[CHR 0x0A, CHR 0x0A]" bs rule: join_with.induct)
  case 1
  then show ?case by simp
next
  case (2 x)
  then show ?case by (simp add: split_block_last)
next
  case (3 x y ys)
  then show ?case by (simp add: split_block_step)
qed

lemma blank_free_line: "CHR 0x0A \<notin> set l \<Longrightarrow> blank_free l"
  by (induction l rule: blank_free.induct) auto

lemma blank_free_append:
  "CHR 0x0A \<notin> set l \<Longrightarrow> l \<noteq> [] \<Longrightarrow> s \<noteq> [] \<Longrightarrow> hd s \<noteq> CHR 0x0A \<Longrightarrow> blank_free s \<Longrightarrow>
   blank_free (l @ CHR 0x0A # s)"
proof (induction l rule: blank_free.induct)
  case 1
  then show ?case by simp
next
  case (2 c)
  then show ?case by (cases s) auto
next
  case (3 c d s')
  then show ?case by auto
qed

lemma join_with_Nil_iff:
  "list_all (\<lambda>l. l \<noteq> []) ls \<Longrightarrow> (join_with sep ls = []) = (ls = [])"
  by (induction sep ls rule: join_with.induct) auto

lemma hd_join_with:
  "ls \<noteq> [] \<Longrightarrow> hd ls \<noteq> [] \<Longrightarrow> hd (join_with sep ls) = hd (hd ls)"
  by (induction sep ls rule: join_with.induct) auto

lemma last_join_with:
  "ls \<noteq> [] \<Longrightarrow> list_all (\<lambda>l. l \<noteq> []) ls \<Longrightarrow> last (join_with sep ls) = last (last ls)"
  by (induction sep ls rule: join_with.induct) (auto simp: join_with_Nil_iff)

lemma blank_free_lines:
  "list_all (\<lambda>l. l \<noteq> [] \<and> CHR 0x0A \<notin> set l) ls \<Longrightarrow> blank_free (join_with [CHR 0x0A] ls)"
proof (induction "[CHR 0x0A]" ls rule: join_with.induct)
  case 1
  then show ?case by simp
next
  case (2 x)
  then show ?case by (simp add: blank_free_line)
next
  case (3 x y ys)
  from 3 have a: "CHR 0x0A \<notin> set x" "x \<noteq> []" and y: "y \<noteq> []" "CHR 0x0A \<notin> set y"
    and b: "blank_free (join_with [CHR 0x0A] (y # ys))"
    by simp_all
  from y have c: "join_with [CHR 0x0A] (y # ys) \<noteq> []"
    by (cases ys) simp_all
  from y have "hd (join_with [CHR 0x0A] (y # ys)) = hd y"
    by (simp add: hd_join_with)
  with y have d: "hd (join_with [CHR 0x0A] (y # ys)) \<noteq> CHR 0x0A"
    by (cases y) auto
  from blank_free_append [OF a c d b] show ?case by simp
qed

lemma path_parseLine:
  "path (parseLine wt l) = (if startsWith l ''worktree '' then slice l 9 else path wt)"
  by (simp add: parseLine_def eval_nat_numeral)

lemma path_parseLines_from:
  "path (foldl parseLine wt ls) =
     (if filter (\<lambda>l. startsWith l ''worktree '') ls = [] then path wt
      else slice (last (filter (\<lambda>l. startsWith l ''worktree '') ls)) 9)"
  by (induction ls rule: rev_induct) (simp_all add: path_parseLine)

lemma worktree_line_path:
  "startsWith l ''worktree '' \<Longrightarrow> l \<noteq> ''worktree '' \<Longrightarrow> slice l 9 \<noteq> []"
  by (auto simp: startsWith_def slice_def prefix_def)

lemma path_block:
  assumes "wf_block ls"
  shows "path (parseLines ls) = block_path ls \<and> block_path ls \<noteq> []"
proof -
  let ?f = "filter (\<lambda>l. startsWith l ''worktree '') ls"
  from assms have ne: "?f \<noteq> []"
    by (auto simp: wf_block_def list_ex_iff filter_empty_conv)
  then have "last ?f \<in> set ?f" by (rule last_in_set)
  then have m: "last ?f \<in> set ls" and w: "startsWith (last ?f) ''worktree ''"
    by auto
  from assms m have "last ?f \<noteq> ''worktree ''"
    by (auto simp: wf_block_def list_all_iff)
  with w have "slice (last ?f) 9 \<noteq> []" by (rule worktree_line_path)
  with ne show ?thesis
    by (simp add: parseLines_def path_parseLines_from block_path_def)
qed

lemma wf_block_text:
  assumes "wf_block ls"
  shows "trim (join_with [CHR 0x0A] ls) = join_with [CHR 0x0A] ls"
    and "join_with [CHR 0x0A] ls \<noteq> []"
    and "split (join_with [CHR 0x0A] ls) [CHR 0x0A] = ls"
    and "blank_free (join_with [CHR 0x0A] ls)"
    and "\<not> is_ws (hd (join_with [CHR 0x0A] ls))"
    and "\<not> is_ws (last (join_with [CHR 0x0A] ls))"
proof -
  from assms have ne: "ls \<noteq> []" and all: "list_all (\<lambda>l. l \<noteq> [] \<and> CHR 0x0A \<notin> set l) ls"
    and h: "\<not> is_ws (hd (hd ls))" and l: "\<not> is_ws (last (last ls))"
    by (simp_all add: wf_block_def)
  from all have all1: "list_all (\<lambda>l. l \<noteq> []) ls" and all2: "list_all (\<lambda>l. CHR 0x0A \<notin> set l) ls"
    by (simp_all add: list_all_iff)
  from ne all1 show t: "join_with [CHR 0x0A] ls \<noteq> []"
    by (simp add: join_with_Nil_iff)
  from ne all1 have "hd ls \<noteq> []"
    by (cases ls) simp_all
  with ne h show hd: "\<not> is_ws (hd (join_with [CHR 0x0A] ls))"
    by (simp add: hd_join_with)
  from ne all1 l show la: "\<not> is_ws (last (join_with [CHR 0x0A] ls))"
    by (simp add: last_join_with)
  from t hd la show "trim (join_with [CHR 0x0A] ls) = join_with [CHR 0x0A] ls"
    by (rule trim_id)
  from ne all2 show "split (join_with [CHR 0x0A] ls) [CHR 0x0A] = ls"
    by (simp add: split_def split_lines)
  from all show "blank_free (join_with [CHR 0x0A] ls)"
    by (rule blank_free_lines)
qed

lemma parseBlock_wf:
  "wf_block ls \<Longrightarrow> parseBlock wts (join_with [CHR 0x0A] ls) = wts @ [block_record (wts = []) ls]"
  using path_block [of ls]
  by (simp add: parseBlock_def wf_block_text Let_def block_record_def)

lemma parseBlocks_wf:
  "list_all wf_block bs \<Longrightarrow>
   foldl parseBlock wts (map (join_with [CHR 0x0A]) bs) =
     wts @ (case bs of [] \<Rightarrow> []
            | b # rest \<Rightarrow> block_record (wts = []) b # map (block_record False) rest)"
proof (induction bs arbitrary: wts)
  case Nil
  then show ?case by simp
next
  case (Cons b bs)
  from Cons.prems have b: "wf_block b" and bs: "list_all wf_block bs"
    by simp_all
  have "foldl parseBlock wts (map (join_with [CHR 0x0A]) (b # bs)) =
          foldl parseBlock (wts @ [block_record (wts = []) b]) (map (join_with [CHR 0x0A]) bs)"
    by (simp add: parseBlock_wf [OF b])
  also have "\<dots> = (wts @ [block_record (wts = []) b])
                 @ (case bs of [] \<Rightarrow> []
                    | c # rest \<Rightarrow> block_record (wts @ [block_record (wts = []) b] = []) c
                                # map (block_record False) rest)"
    by (rule Cons.IH [OF bs])
  finally show ?case
    by (simp split: list.splits)
qed

lemma porcelain_text_trim:
  assumes "list_all wf_block bs" and "list_all is_ws trailer"
  shows "trim (porcelain_text bs @ trailer) = porcelain_text bs"
proof (cases bs)
  case Nil
  with assms(2) show ?thesis by (simp add: porcelain_text_def trim_all_ws)
next
  case (Cons b rest)
  let ?ts = "map (join_with [CHR 0x0A]) bs"
  from assms have ne: "list_all (\<lambda>l. l \<noteq> []) ?ts"
    by (simp add: list_all_iff wf_block_text(2))
  from Cons have n: "?ts \<noteq> []" by simp
  from ne n have t: "porcelain_text bs \<noteq> []"
    by (simp add: porcelain_text_def join_with_Nil_iff)
  from assms Cons have "wf_block b" by simp
  then have "\<not> is_ws (hd (hd ?ts))" "hd ?ts \<noteq> []"
    using Cons by (simp_all add: wf_block_text)
  with n have h: "\<not> is_ws (hd (porcelain_text bs))"
    by (simp add: porcelain_text_def hd_join_with)
  from Cons have bsne: "bs \<noteq> []" by simp
  with assms have "wf_block (last bs)"
    by (simp add: list_all_iff)
  then have "\<not> is_ws (last (join_with [CHR 0x0A] (last bs)))"
    by (rule wf_block_text(6))
  with bsne have "\<not> is_ws (last (last ?ts))"
    by (simp add: last_map)
  with n ne have l: "\<not> is_ws (last (porcelain_text bs))"
    by (simp add: porcelain_text_def last_join_with)
  from t h l assms(2) show ?thesis by (rule trim_trailing)
qed

lemma parsePorcelain_wf:
  assumes "list_all wf_block bs" and "list_all is_ws trailer"
  shows "parsePorcelain (porcelain_text bs @ trailer) =
           (case bs of [] \<Rightarrow> []
            | b # rest \<Rightarrow> block_record True b # map (block_record False) rest)"
proof (cases bs)
  case Nil
  with assms(2) show ?thesis
    by (simp add: parsePorcelain_def porcelain_text_def trim_all_ws split_def parseBlock_def
        trim_Nil)
next
  case (Cons b rest)
  let ?ts = "map (join_with [CHR 0x0A]) bs"
  from assms have bf: "list_all blank_free ?ts"
    by (simp add: list_all_iff wf_block_text(4))
  from Cons have n: "?ts \<noteq> []" by simp
  from n bf have sp: "split (porcelain_text bs) [CHR 0x0A, CHR 0x0A] = ?ts"
    by (simp add: split_def porcelain_text_def split_blocks)
  have "parsePorcelain (porcelain_text bs @ trailer) = foldl parseBlock [] ?ts"
    by (simp only: parsePorcelain_def porcelain_text_trim [OF assms] sp)
  also have "\<dots> = (case bs of [] \<Rightarrow> []
            | b # rest \<Rightarrow> block_record True b # map (block_record False) rest)"
    using parseBlocks_wf [OF assms(1), of "[]"] by (simp split: list.splits)
  finally show ?thesis .
qed

text \<open>
  C1. For a text of N well-formed blocks, joined by one blank line and followed by any
  white space (the listing command ends its output with a blank line), the parser
  returns exactly N records, the i-th carrying the path of the i-th block, and the first
  record is flagged main, whether or not a block holds a \<^verbatim>\<open>bare\<close> line. (For N = 0 the
  result is empty.)
\<close>

theorem parsePorcelain_blocks:
  "list_all wf_block bs \<Longrightarrow> list_all is_ws trailer \<Longrightarrow>
     length (parsePorcelain (porcelain_text bs @ trailer)) = length bs
     \<and> map path (parsePorcelain (porcelain_text bs @ trailer)) = map block_path bs
     \<and> (bs \<noteq> [] \<longrightarrow> isMain (hd (parsePorcelain (porcelain_text bs @ trailer))))"
proof -
  assume a: "list_all wf_block bs" and t: "list_all is_ws trailer"
  have p: "\<And>f b. wf_block b \<Longrightarrow> path (block_record f b) = block_path b"
    using path_block by (simp add: block_record_def)
  from a have "map path (map (block_record False) bs) = map block_path bs"
    by (simp add: list_all_iff p)
  with a t p show ?thesis
    by (cases bs) (simp_all add: parsePorcelain_wf block_record_def list_all_iff)
qed

theorem parsePorcelain_blocks_witness:
  "list_all wf_block [sample_block_main, sample_block_detached]
   \<and> list_all is_ws [CHR 0x0A, CHR 0x0A]
   \<and> length (parsePorcelain
         (porcelain_text [sample_block_main, sample_block_detached] @ [CHR 0x0A, CHR 0x0A])) = 2
   \<and> map path (parsePorcelain
         (porcelain_text [sample_block_main, sample_block_detached] @ [CHR 0x0A, CHR 0x0A]))
       = [''/repo'', ''/repo/wt'']
   \<and> isMain (hd (parsePorcelain
         (porcelain_text [sample_block_main, sample_block_detached] @ [CHR 0x0A, CHR 0x0A])))"
proof -
  let ?bs = "[sample_block_main, sample_block_detached]"
  have w: "list_all wf_block ?bs"
    by code_simp
  have t: "list_all is_ws [CHR 0x0A, CHR 0x0A]"
    by code_simp
  have p: "map block_path ?bs = [''/repo'', ''/repo/wt'']"
    by code_simp
  from parsePorcelain_blocks [OF w t] w t p show ?thesis by simp
qed

lemma branch_parseLine_keep:
  "\<not> startsWith l ''branch '' \<Longrightarrow> branch wt = None \<Longrightarrow> branch (parseLine wt l) = None"
  by (simp add: parseLine_def)

lemma branch_parseLines_keep:
  "list_all (\<lambda>l. \<not> startsWith l ''branch '') ls \<Longrightarrow> branch wt = None \<Longrightarrow>
   branch (foldl parseLine wt ls) = None"
  by (induction ls arbitrary: wt) (simp_all add: branch_parseLine_keep)

lemma parseLine_detached: "branch (parseLine wt ''detached'') = None"
  by (simp add: parseLine_def startsWith_def)

lemma branch_detached_last:
  "list_all (\<lambda>l. \<not> startsWith l ''branch '') post \<Longrightarrow>
   branch (parseLines (pre @ ''detached'' # post)) = None"
  by (simp add: parseLines_def branch_parseLines_keep parseLine_detached)

lemma parsePorcelain_nth:
  "list_all wf_block bs \<Longrightarrow> list_all is_ws trailer \<Longrightarrow> i < length bs \<Longrightarrow>
   parsePorcelain (porcelain_text bs @ trailer) ! i = block_record (i = 0) (bs ! i)"
  by (cases bs; cases i) (simp_all add: parsePorcelain_wf)

lemma branch_parseLine_same:
  "\<not> startsWith l ''branch '' \<Longrightarrow> l \<noteq> ''detached'' \<Longrightarrow> branch (parseLine wt l) = branch wt"
  by (simp add: parseLine_def)

lemma branch_parseLines_same:
  "list_all (\<lambda>l. \<not> startsWith l ''branch '' \<and> l \<noteq> ''detached'') ls \<Longrightarrow>
   branch (foldl parseLine wt ls) = branch wt"
  by (induction ls arbitrary: wt) (simp_all add: branch_parseLine_same)

lemma parseLine_branch:
  "branch (parseLine wt (''branch '' @ r)) = Some (replace r ''refs/heads/'' [])"
  by (simp add: parseLine_def startsWith_def slice_def)

lemma branch_line_last:
  "list_all (\<lambda>l. \<not> startsWith l ''branch '' \<and> l \<noteq> ''detached'') post \<Longrightarrow>
   branch (parseLines (pre @ (''branch '' @ r) # post)) = Some (replace r ''refs/heads/'' [])"
  using parseLine_branch [of "foldl parseLine block_init pre" r]
  by (simp add: parseLines_def branch_parseLines_same)

text \<open>
  C2 (as amended). In a text of well-formed blocks, the \<^verbatim>\<open>branch\<close> and \<^verbatim>\<open>detached\<close> lines
  of a block are applied in order and the last of them decides. A block with a
  \<^verbatim>\<open>detached\<close> line after which no \<^verbatim>\<open>branch\<close> line follows gives a record with no branch,
  whatever \<^verbatim>\<open>branch\<close> lines stand before the \<^verbatim>\<open>detached\<close> line. A block with a
  \<^verbatim>\<open>branch <ref>\<close> line after which neither a \<^verbatim>\<open>branch\<close> nor a \<^verbatim>\<open>detached\<close> line follows
  gives a record whose branch is the ref without its first \<^verbatim>\<open>refs/heads/\<close>, whatever
  \<^verbatim>\<open>detached\<close> lines stand before it.
\<close>

theorem detached_wins_unless_branch_follows:
  assumes "list_all wf_block bs" and "list_all is_ws trailer" and "i < length bs"
  shows "(bs ! i = pre @ ''detached'' # post
            \<and> list_all (\<lambda>l. \<not> startsWith l ''branch '') post
          \<longrightarrow> branch (parsePorcelain (porcelain_text bs @ trailer) ! i) = None)
       \<and> (bs ! i = pre' @ (''branch '' @ r) # post'
            \<and> list_all (\<lambda>l. \<not> startsWith l ''branch '' \<and> l \<noteq> ''detached'') post'
          \<longrightarrow> branch (parsePorcelain (porcelain_text bs @ trailer) ! i)
                = Some (replace r ''refs/heads/'' []))"
proof -
  have b: "branch (parsePorcelain (porcelain_text bs @ trailer) ! i) = branch (parseLines (bs ! i))"
    using assms by (simp add: parsePorcelain_nth block_record_def)
  show ?thesis
    using branch_detached_last [of post pre] branch_line_last [of post' pre' r]
    by (simp add: b)
qed

theorem detached_wins_unless_branch_follows_witness:
  "list_all wf_block [sample_block_main, sample_block_both, sample_block_after]
   \<and> list_all is_ws [CHR 0x0A, CHR 0x0A]
   \<and> [sample_block_main, sample_block_both, sample_block_after] ! 1 =
        [''worktree /repo/wt'', ''HEAD 89abcdef0123456789abcdef0123456789abcdef'',
         ''branch refs/heads/feat''] @ ''detached'' # [''locked'']
   \<and> list_all (\<lambda>l. \<not> startsWith l ''branch '') [''locked'']
   \<and> branch (parsePorcelain
         (porcelain_text [sample_block_main, sample_block_both, sample_block_after]
            @ [CHR 0x0A, CHR 0x0A]) ! 1) = None
   \<and> [sample_block_main, sample_block_both, sample_block_after] ! 2 =
        [''worktree /repo/wt2'', ''HEAD 89abcdef0123456789abcdef0123456789abcdef'',
         ''detached''] @ (''branch '' @ ''refs/heads/fix'') # [''locked'']
   \<and> list_all (\<lambda>l. \<not> startsWith l ''branch '' \<and> l \<noteq> ''detached'') [''locked'']
   \<and> branch (parsePorcelain
         (porcelain_text [sample_block_main, sample_block_both, sample_block_after]
            @ [CHR 0x0A, CHR 0x0A]) ! 2) = Some ''fix''"
proof -
  let ?bs = "[sample_block_main, sample_block_both, sample_block_after]"
  have w: "list_all wf_block ?bs"
    by code_simp
  have t: "list_all is_ws [CHR 0x0A, CHR 0x0A]"
    by code_simp
  have i1: "1 < length ?bs" and i2: "2 < length ?bs"
    by simp_all
  have e1: "?bs ! 1 = [''worktree /repo/wt'', ''HEAD 89abcdef0123456789abcdef0123456789abcdef'',
             ''branch refs/heads/feat''] @ ''detached'' # [''locked'']"
    by (simp add: sample_block_both_def)
  have n1: "list_all (\<lambda>l. \<not> startsWith l ''branch '') [''locked'']"
    by code_simp
  have e2: "?bs ! 2 = [''worktree /repo/wt2'', ''HEAD 89abcdef0123456789abcdef0123456789abcdef'',
             ''detached''] @ (''branch '' @ ''refs/heads/fix'') # [''locked'']"
    by (simp add: sample_block_after_def)
  have n2: "list_all (\<lambda>l. \<not> startsWith l ''branch '' \<and> l \<noteq> ''detached'') [''locked'']"
    by code_simp
  have v: "replace ''refs/heads/fix'' ''refs/heads/'' [] = ''fix''"
    by code_simp
  from detached_wins_unless_branch_follows [OF w t i1, where pre = "[''worktree /repo/wt'',
      ''HEAD 89abcdef0123456789abcdef0123456789abcdef'', ''branch refs/heads/feat'']"
      and post = "[''locked'']"] e1 n1
  have r1: "branch (parsePorcelain (porcelain_text ?bs @ [CHR 0x0A, CHR 0x0A]) ! 1) = None"
    by blast
  from detached_wins_unless_branch_follows [OF w t i2, where pre' = "[''worktree /repo/wt2'',
      ''HEAD 89abcdef0123456789abcdef0123456789abcdef'', ''detached'']"
      and r = "''refs/heads/fix''" and post' = "[''locked'']"] e2 n2 v
  have r2: "branch (parsePorcelain (porcelain_text ?bs @ [CHR 0x0A, CHR 0x0A]) ! 2) = Some ''fix''"
    by simp
  from w t e1 n1 r1 e2 n2 r2 show ?thesis by blast
qed

text \<open>The claim as first stated lets the \<^verbatim>\<open>detached\<close> line win over a \<^verbatim>\<open>branch\<close> line on
  either side of it. The lines are read in order and the last of the two kinds decides:
  with the \<^verbatim>\<open>branch\<close> line after the \<^verbatim>\<open>detached\<close> line the record has the branch.\<close>

theorem detached_then_branch_counterexample:
  "parsePorcelain (''worktree /a'' @ [CHR 0x0A] @ ''detached'' @ [CHR 0x0A]
                   @ ''branch refs/heads/x'')
     = [\<lparr>path = ''/a'', head = [], branch = Some ''x'', isMain = True, isLocked = False,
         isPrunable = False, isDirty = None\<rparr>]"
  by code_simp


section \<open>Properties of the error classifier\<close>




section \<open>Properties of the worktree operations\<close>

text \<open>
  C4. When the creation subprocess succeeds and the listing run after it succeeds too but
  holds no worktree whose path equals the requested one, \<open>addWorktree\<close> returns the error
  COMMAND_FAILED, with the message naming the path, and no success value.
\<close>

theorem addWorktree_not_listed:
  assumes "git h w (addArgs dir opts) = (Exit_ok out, w1)"
      and "listWorktrees h w1 dir = (Inr wts, w2)"
      and "\<forall>wt \<in> set wts. path wt \<noteq> basePath opts"
  shows "addWorktree h w dir opts =
           (Inl \<lparr>code = COMMAND_FAILED,
                 message = ''Worktree was created but not found in list at '' @ basePath opts,
                 stderr = []\<rparr>, w2)"
proof -
  from assms(3) have "find (\<lambda>wt. path wt = basePath opts) wts = None"
    by (simp add: find_None_iff)
  with assms(1,2) show ?thesis
    by (simp add: addWorktree_def err_def)
qed

theorem addWorktree_not_listed_witness:
  "git sample_host 0 (addArgs ''/repo'' \<lparr>basePath = ''/repo/wt'', opt_branch = ''feat'',
       startPoint = None, createBranch = True\<rparr>) = (Exit_ok [], 1)
   \<and> listWorktrees sample_host 1 ''/repo'' = (Inr [sample_worktree ''/repo'' ''main'' True], 2)
   \<and> path (sample_worktree ''/repo'' ''main'' True) \<noteq> ''/repo/wt''
   \<and> addWorktree sample_host 0 ''/repo'' \<lparr>basePath = ''/repo/wt'', opt_branch = ''feat'',
       startPoint = None, createBranch = True\<rparr> =
           (Inl \<lparr>code = COMMAND_FAILED,
                 message = ''Worktree was created but not found in list at /repo/wt'',
                 stderr = []\<rparr>, 2)"
proof -
  let ?o = "\<lparr>basePath = ''/repo/wt'', opt_branch = ''feat'', startPoint = None,
             createBranch = True\<rparr>"
  have a: "git sample_host 0 (addArgs ''/repo'' ?o) = (Exit_ok [], 1)"
    by code_simp
  have b: "listWorktrees sample_host 1 ''/repo''
             = (Inr [sample_worktree ''/repo'' ''main'' True], 2)"
    by code_simp
  have c: "\<forall>wt \<in> set [sample_worktree ''/repo'' ''main'' True]. path wt \<noteq> basePath ?o"
    by (simp add: sample_worktree_def)
  from addWorktree_not_listed [OF a b c] a b c show ?thesis by simp
qed

text \<open>
  C8. \<open>isWorktreeDirty\<close> returns a boolean, never an error value: when the status
  subprocess fails, whatever it reports, the answer is true (dirty); when it succeeds,
  the answer is whether its output, trimmed, is non-empty.
\<close>

theorem isWorktreeDirty_failure:
  "(git h w (statusArgs p) = (Exit_fail se, w') \<longrightarrow> isWorktreeDirty h w p = (True, w'))
   \<and> (git h w (statusArgs p) = (Exit_ok out, w') \<longrightarrow>
        isWorktreeDirty h w p = (trim out \<noteq> [], w'))"
  by (simp add: isWorktreeDirty_def)

theorem isWorktreeDirty_failure_witness:
  "git sample_host 0 (statusArgs ''/gone'') =
     (Exit_fail ''fatal: not a git repository (or any of the parent directories): .git'', 1)
   \<and> isWorktreeDirty sample_host 0 ''/gone'' = (True, 1)
   \<and> git sample_host 0 (statusArgs ''/repo'') = (Exit_ok [], 1)
   \<and> isWorktreeDirty sample_host 0 ''/repo'' = (False, 1)"
proof -
  have a: "git sample_host 0 (statusArgs ''/gone'') =
     (Exit_fail ''fatal: not a git repository (or any of the parent directories): .git'', 1)"
    by code_simp
  have b: "git sample_host 0 (statusArgs ''/repo'') = (Exit_ok [], 1)"
    by code_simp
  from isWorktreeDirty_failure [of sample_host 0 "''/gone''" _ 1] a
  have c: "isWorktreeDirty sample_host 0 ''/gone'' = (True, 1)"
    by blast
  from isWorktreeDirty_failure [of sample_host 0 "''/repo''" _ 1 "[]"] b
  have d: "isWorktreeDirty sample_host 0 ''/repo'' = (False, 1)"
    by (simp add: trim_Nil)
  from a b c d show ?thesis by blast
qed

text \<open>A success value of \<open>addWorktree\<close> is never made up: it is an entry of the listing run
  after the creation, at the requested path.\<close>

lemma addWorktree_success_listed:
  assumes "fst (addWorktree h w dir opts) = Inr wt"
  shows "path wt = basePath opts
         \<and> (\<exists>out w1 wts. git h w (addArgs dir opts) = (Exit_ok out, w1)
               \<and> fst (listWorktrees h w1 dir) = Inr wts \<and> wt \<in> set wts)"
  using assms
  by (auto simp: addWorktree_def err_def ok_def find_Some_iff
      split: prod.splits proc_result.splits sum.splits option.splits)

section \<open>Properties of the project loader\<close>

text \<open>
  C9. For a path that resolves to a repository, \<open>loadProject\<close> returns a project in both
  cases of the listing: when the listing fails the worktree collection is empty and the
  error goes no further; the name is the basename of the path of the first worktree
  flagged main, or the basename of the input path when no worktree is flagged main (as
  when the collection is empty).
\<close>

theorem loadProject_fallback:
  assumes "detectGitDir h w p = (Some g, w1)" and "g \<noteq> []"
  shows "(\<forall>e w2. listWorktrees h w1 p = (Inl e, w2) \<longrightarrow>
            loadProject h w p =
              (Some \<lparr>name = path_basename h p, gitDir = g, mainWorktree = p, worktrees = []\<rparr>, w2))
       \<and> (\<forall>wts w2. listWorktrees h w1 p = (Inr wts, w2) \<longrightarrow>
            loadProject h w p =
              (Some \<lparr>name = path_basename h
                             (case find isMain wts of Some wt \<Rightarrow> path wt | None \<Rightarrow> p),
                      gitDir = g,
                      mainWorktree = (case find isMain wts of Some wt \<Rightarrow> path wt | None \<Rightarrow> p),
                      worktrees = wts\<rparr>, w2))"
  using assms by (simp add: loadProject_def Let_def)

theorem loadProject_fallback_witness:
  "detectGitDir sample_host 0 ''/broken'' = (Some ''/broken/.git'', 1)
   \<and> isl (fst (listWorktrees sample_host 1 ''/broken''))
   \<and> loadProject sample_host 0 ''/broken'' =
       (Some \<lparr>name = ''broken'', gitDir = ''/broken/.git'', mainWorktree = ''/broken'',
               worktrees = []\<rparr>, 2)
   \<and> detectGitDir sample_host 0 ''/repo'' = (Some ''/repo/.git'', 1)
   \<and> listWorktrees sample_host 1 ''/repo'' = (Inr [sample_worktree ''/repo'' ''main'' True], 2)
   \<and> loadProject sample_host 0 ''/repo'' =
       (Some \<lparr>name = ''repo'', gitDir = ''/repo/.git'', mainWorktree = ''/repo'',
               worktrees = [sample_worktree ''/repo'' ''main'' True]\<rparr>, 2)"
proof -
  let ?e = "classifyGitError
              ''fatal: not a git repository (or any of the parent directories): .git''"
  have a: "detectGitDir sample_host 0 ''/broken'' = (Some ''/broken/.git'', 1)"
    by code_simp
  have b: "''/broken/.git'' \<noteq> []"
    by simp
  have c: "listWorktrees sample_host 1 ''/broken'' = (Inl ?e, 2)"
    by code_simp
  have n: "path_basename sample_host ''/broken'' = ''broken''"
    by code_simp
  from loadProject_fallback [OF a b] c n
  have r1: "loadProject sample_host 0 ''/broken'' =
       (Some \<lparr>name = ''broken'', gitDir = ''/broken/.git'', mainWorktree = ''/broken'',
               worktrees = []\<rparr>, 2)"
    by simp
  have a': "detectGitDir sample_host 0 ''/repo'' = (Some ''/repo/.git'', 1)"
    by code_simp
  have b': "''/repo/.git'' \<noteq> []"
    by simp
  have c': "listWorktrees sample_host 1 ''/repo''
              = (Inr [sample_worktree ''/repo'' ''main'' True], 2)"
    by code_simp
  have n': "path_basename sample_host ''/repo'' = ''repo''"
    by code_simp
  from loadProject_fallback [OF a' b'] c' n'
  have r2: "loadProject sample_host 0 ''/repo'' =
       (Some \<lparr>name = ''repo'', gitDir = ''/repo/.git'', mainWorktree = ''/repo'',
               worktrees = [sample_worktree ''/repo'' ''main'' True]\<rparr>, 2)"
    by (simp add: sample_worktree_def)
  from a c r1 a' c' r2 show ?thesis by simp
qed

section \<open>Properties of the state machine\<close>

lemma toLowerCase_Nil: "toLowerCase [] = []"
  by (simp add: toLowerCase_def)

text \<open>A filter never lengthens the flat list: the list for the empty filter holds every
  project and, where not collapsed, all its worktrees.\<close>

lemma build_loop_length_le:
  "length (build_loop ps collapsed query) \<le> length (build_loop ps collapsed [])"
proof (induction ps)
  case Nil
  then show ?case by simp
next
  case (Cons p ps)
  have "length (filter (worktreeMatches query p) (worktrees p)) \<le> length (worktrees p)"
    by (rule length_filter_le)
  with Cons show ?case
    by (auto simp: Let_def intro: add_le_mono)
qed

lemma buildFilteredItems_length_le:
  "length (buildFilteredItems ps collapsed ft) \<le> length (buildFilteredItems ps collapsed [])"
  by (simp add: buildFilteredItems_def toLowerCase_Nil build_loop_length_le)

lemma findIndex_bounds: "- 1 \<le> findIndex P xs \<and> findIndex P xs < int (length xs)"
  by (induction xs) (auto simp: Let_def)

lemma cursor_inv_init: "cursor_inv (initialState ps)"
  using findIndex_bounds [of is_worktree_item "buildFilteredItems ps {} []"]
  by (auto simp: cursor_inv_def initialState_def Let_def)

lemma cursor_inv_step: "cursor_inv s \<Longrightarrow> cursor_inv (appReducer s a)"
proof (cases a)
  case SHOW_LIST
  assume "cursor_inv s"
  with SHOW_LIST
    buildFilteredItems_length_le [of "projects s" "collapsedProjects s" "filterText s"]
  show ?thesis by (auto simp: cursor_inv_def Let_def)
qed (auto simp: cursor_inv_def set_projects_def Let_def split: option.splits ListItem.splits)

lemma reachable_cursor_inv: "reachable s \<Longrightarrow> cursor_inv s"
  by (induction rule: reachable.induct) (auto intro: cursor_inv_init cursor_inv_step)

text \<open>
  C7. In every state reachable from an initial state by reducer transitions, the cursor
  is at least 0 and at most max(0, length of the flat list - 1): it is a valid index, or
  0 when the list is empty. This covers every transition that can shrink the list
  (setting the projects, refreshing the worktrees, setting the filter, toggling a
  collapse, returning to the list view).
\<close>

theorem cursor_in_range:
  "reachable s \<Longrightarrow>
     0 \<le> selectedIndex s \<and> selectedIndex s \<le> max 0 (int (length (filteredItems s)) - 1)"
  using reachable_cursor_inv [of s] unfolding cursor_inv_def by blast

theorem cursor_in_range_witness:
  "reachable (appReducer (initialState [sample_project]) (SET_FILTER ''zzz''))
   \<and> filteredItems (appReducer (initialState [sample_project]) (SET_FILTER ''zzz'')) = []
   \<and> selectedIndex (appReducer (initialState [sample_project]) (SET_FILTER ''zzz'')) = 0"
proof -
  let ?s = "appReducer (initialState [sample_project]) (SET_FILTER ''zzz'')"
  have r: "reachable ?s"
    by (rule reachable.step) (rule reachable.init)
  have e: "filteredItems ?s = []"
    by code_simp
  from cursor_in_range [OF r] e have "selectedIndex ?s = 0"
    by simp
  with r e show ?thesis by blast
qed

text \<open>
  C10. On a non-empty flat list, moving the selection by any integer delta sets the
  cursor to selectedIndex + delta when that is an index of the list, to the last index
  when the sum is negative, and to 0 when the sum is the length or more; nothing else in
  the state changes. On an empty flat list the state stays as it is.
\<close>

theorem moveSelection_clamp:
  "(filteredItems s \<noteq> [] \<longrightarrow>
      appReducer s (MOVE_SELECTION delta) =
        s\<lparr>selectedIndex :=
            (if selectedIndex s + delta < 0 then int (length (filteredItems s)) - 1
             else if selectedIndex s + delta \<ge> int (length (filteredItems s)) then 0
             else selectedIndex s + delta)\<rparr>)
   \<and> (filteredItems s = [] \<longrightarrow> appReducer s (MOVE_SELECTION delta) = s)"
  by (auto simp: Let_def)

theorem moveSelection_clamp_witness:
  "filteredItems (initialState [sample_project]) \<noteq> []
   \<and> int (length (filteredItems (initialState [sample_project]))) = 4
   \<and> selectedIndex (initialState [sample_project]) = 1
   \<and> selectedIndex (appReducer (initialState [sample_project]) (MOVE_SELECTION 2)) = 3
   \<and> selectedIndex (appReducer (initialState [sample_project]) (MOVE_SELECTION 7)) = 0
   \<and> selectedIndex (appReducer (initialState [sample_project]) (MOVE_SELECTION (- 5))) = 3
   \<and> filteredItems (initialState []) = []
   \<and> appReducer (initialState []) (MOVE_SELECTION 1) = initialState []"
proof -
  let ?s = "initialState [sample_project]"
  have ne: "filteredItems ?s \<noteq> []"
    by code_simp
  have len: "int (length (filteredItems ?s)) = 4"
    by code_simp
  have sel: "selectedIndex ?s = 1"
    by code_simp
  have m: "\<And>d. selectedIndex (appReducer ?s (MOVE_SELECTION d)) =
             (if 1 + d < 0 then 3 else if 1 + d \<ge> 4 then 0 else 1 + d)"
    using moveSelection_clamp [of ?s] ne len sel by simp
  have e: "filteredItems (initialState []) = []"
    by code_simp
  from moveSelection_clamp [of "initialState []" 1] e
  have n: "appReducer (initialState []) (MOVE_SELECTION 1) = initialState []"
    by blast
  from ne len sel m [of 2] m [of 7] m [of "- 5"] e n show ?thesis by simp
qed

section \<open>Properties of project discovery\<close>

lemma assemble_loop_distinct:
  "distinct (map gitDir ps) \<Longrightarrow> gitDir ` set ps \<subseteq> seen \<Longrightarrow>
   distinct (map gitDir (assemble_loop es ls seen ps))"
proof (induction es ls seen ps rule: assemble_loop.induct)
  case (1 e es l ls seen ps)
  show ?case
  proof (cases l)
    case None
    with 1 show ?thesis by simp
  next
    case (Some project)
    show ?thesis
    proof (cases "gitDir project \<in> seen")
      case True
      with Some 1 show ?thesis by simp
    next
      case False
      define project' where "project' = (case entry_name e of
                              None \<Rightarrow> project
                            | Some n \<Rightarrow> if n \<noteq> [] then project\<lparr>name := n\<rparr> else project)"
      have g: "gitDir project' = gitDir project"
        by (simp add: project'_def split: option.splits)
      from False "1.prems" g have d: "distinct (map gitDir (ps @ [project']))"
        by auto
      from "1.prems" g have s: "gitDir ` set (ps @ [project']) \<subseteq> insert (gitDir project) seen"
        by auto
      from "1.IH"(2) [OF Some False project'_def d s] Some False
      show ?thesis by (simp add: project'_def)
    qed
  qed
qed simp_all

lemma assemble_loop_prefix: "\<exists>xs. assemble_loop es ls seen ps = ps @ xs"
proof (induction es ls seen ps rule: assemble_loop.induct)
  case (1 e es l ls seen ps)
  show ?case
  proof (cases l)
    case None
    with "1.IH"(1) show ?thesis by simp
  next
    case (Some project)
    show ?thesis
    proof (cases "gitDir project \<in> seen")
      case True
      with Some "1.IH"(3) show ?thesis by simp
    next
      case False
      define project' where "project' = (case entry_name e of
                              None \<Rightarrow> project
                            | Some n \<Rightarrow> if n \<noteq> [] then project\<lparr>name := n\<rparr> else project)"
      from "1.IH"(2) [OF Some False project'_def] obtain xs where
        "assemble_loop es ls (insert (gitDir project) seen) (ps @ [project']) = (ps @ [project']) @ xs"
        by blast
      with Some False show ?thesis
        by (simp add: project'_def Let_def)
    qed
  qed
qed simp_all

lemma assemble_loop_first:
  "i < length es \<Longrightarrow> i < length ls \<Longrightarrow> ls ! i = Some pr \<Longrightarrow> gitDir pr \<notin> seen \<Longrightarrow>
   (\<forall>k<i. \<forall>q. ls ! k = Some q \<longrightarrow> gitDir q \<noteq> gitDir pr) \<Longrightarrow>
   (case entry_name (es ! i) of None \<Rightarrow> pr
    | Some n \<Rightarrow> if n \<noteq> [] then pr\<lparr>name := n\<rparr> else pr) \<in> set (assemble_loop es ls seen ps)"
proof (induction es ls seen ps arbitrary: i rule: assemble_loop.induct)
  case (1 e es l ls seen ps)
  show ?case
  proof (cases i)
    case 0
    define pr' where "pr' = (case entry_name e of None \<Rightarrow> pr
                             | Some n \<Rightarrow> if n \<noteq> [] then pr\<lparr>name := n\<rparr> else pr)"
    from 0 "1.prems" have l: "l = Some pr" by simp
    obtain xs where "assemble_loop es ls (insert (gitDir pr) seen) (ps @ [pr']) = (ps @ [pr']) @ xs"
      using assemble_loop_prefix by blast
    with l "1.prems"(4) 0 show ?thesis
      by (simp add: pr'_def Let_def)
  next
    case (Suc j)
    with "1.prems" have j: "j < length es" "j < length ls" "ls ! j = Some pr"
      and f: "\<forall>k<j. \<forall>q. ls ! k = Some q \<longrightarrow> gitDir q \<noteq> gitDir pr"
      by auto
    show ?thesis
    proof (cases l)
      case None
      from "1.IH"(1) [OF None j "1.prems"(4) f] None Suc show ?thesis by simp
    next
      case (Some project)
      from "1.prems"(5) Suc Some have ne: "gitDir project \<noteq> gitDir pr"
        by auto
      show ?thesis
      proof (cases "gitDir project \<in> seen")
        case True
        from "1.IH"(3) [OF Some _ j "1.prems"(4) f] True Some Suc show ?thesis by simp
      next
        case False
        from ne "1.prems"(4) have ns: "gitDir pr \<notin> insert (gitDir project) seen"
          by auto
        from "1.IH"(2) [OF Some False refl j ns f] False Some Suc show ?thesis
          by (simp add: Let_def)
      qed
    qed
  qed
qed simp_all

lemma distinct_map_unique:
  "distinct (map f xs) \<Longrightarrow> x \<in> set xs \<Longrightarrow> y \<in> set xs \<Longrightarrow> f x = f y \<Longrightarrow> x = y"
  by (meson distinct_map inj_onD)

lemma discoverProjects_distinct: "distinct (map gitDir (discoverProjects h w config))"
proof -
  obtain cwdProject w1 where l: "loadProject h w (process_cwd h) = (cwdProject, w1)"
    by (cases "loadProject h w (process_cwd h)")
  show ?thesis
    unfolding discoverProjects_def l
    by (cases cwdProject) (simp_all add: Let_def assemble_loop_distinct)
qed

lemma discoverProjects_cwd_first:
  "fst (loadProject h w (process_cwd h)) = Some c \<Longrightarrow> hd (discoverProjects h w config) = c"
proof -
  assume a: "fst (loadProject h w (process_cwd h)) = Some c"
  then obtain w1 where l: "loadProject h w (process_cwd h) = (Some c, w1)"
    by (cases "loadProject h w (process_cwd h)") auto
  show ?thesis
    unfolding discoverProjects_def l
    using assemble_loop_prefix [where ps = "[c]"]
    by (simp add: Let_def) (metis append_Cons list.sel(1))
qed

lemma discoverProjects_first_declared:
  assumes i: "i < length (cfg_projects config)"
      and ld: "cfg_load h w config i = Some pr"
      and first: "\<forall>k<i. \<forall>q. cfg_load h w config k = Some q \<longrightarrow> gitDir q \<noteq> gitDir pr"
      and notcwd: "\<forall>c. fst (loadProject h w (process_cwd h)) = Some c \<longrightarrow> gitDir c \<noteq> gitDir pr"
  shows "(if pc_name (cfg_projects config ! i) \<noteq> []
          then pr\<lparr>name := pc_name (cfg_projects config ! i)\<rparr> else pr)
         \<in> set (discoverProjects h w config)"
proof -
  obtain cwdProject w1 where l: "loadProject h w (process_cwd h) = (cwdProject, w1)"
    by (cases "loadProject h w (process_cwd h)")
  define configuredPaths where "configuredPaths =
    map (\<lambda>pc. \<lparr>entry_path = expandPath h (pc_path pc), entry_name = Some (pc_name pc)\<rparr>)
      (cfg_projects config)"
  define base where "base = expandPath h (worktreeBase config)"
  define autoPaths where "autoPaths = (case glob_scan h w1 base of
                             Some entries \<Rightarrow>
                               map (\<lambda>entry. \<lparr>entry_path = path_resolve h base entry,
                                              entry_name = None\<rparr>) entries
                           | None \<Rightarrow> [])"
  define allPaths where "allPaths = configuredPaths @ autoPaths"
  define loaded where "loaded = map (\<lambda>p. fst (loadProject h w1 (entry_path p))) allPaths"
  define seen where "seen = (case cwdProject of Some p \<Rightarrow> {gitDir p} | None \<Rightarrow> {})"
  define ps where "ps = (case cwdProject of Some p \<Rightarrow> [p] | None \<Rightarrow> [])"
  have dp: "discoverProjects h w config = assemble_loop allPaths loaded seen ps"
    unfolding discoverProjects_def l Let_def allPaths_def loaded_def seen_def ps_def
        configuredPaths_def autoPaths_def base_def
    by simp
  have len: "length configuredPaths = length (cfg_projects config)"
    by (simp add: configuredPaths_def)
  have nth: "\<And>k. k < length (cfg_projects config) \<Longrightarrow> k < length allPaths \<and>
      allPaths ! k = \<lparr>entry_path = expandPath h (pc_path (cfg_projects config ! k)),
                      entry_name = Some (pc_name (cfg_projects config ! k))\<rparr>
      \<and> loaded ! k = cfg_load h w config k"
    by (simp add: allPaths_def loaded_def nth_append len cfg_load_def l)
       (simp add: configuredPaths_def)
  from nth [OF i] have i1: "i < length allPaths" and i2: "i < length loaded"
    by (simp_all add: loaded_def)
  from nth [OF i] ld have i3: "loaded ! i = Some pr" by simp
  from notcwd l have i4: "gitDir pr \<notin> seen"
    by (auto simp: seen_def split: option.splits)
  have i5: "\<forall>k<i. \<forall>q. loaded ! k = Some q \<longrightarrow> gitDir q \<noteq> gitDir pr"
  proof (intro allI impI)
    fix k q assume "k < i" and "loaded ! k = Some q"
    with i nth [of k] first show "gitDir q \<noteq> gitDir pr" by simp
  qed
  from assemble_loop_first [OF i1 i2 i3 i4 i5, of ps] nth [OF i] dp
  show ?thesis by simp
qed

text \<open>
  C5 (as amended). The list \<open>discoverProjects\<close> returns never holds two projects with the
  same git-directory path. The project of the current directory, when there is one,
  comes first, as loaded. When a configured entry is the first declared one that loads a
  repository, and the current directory is not in that repository, the one project of
  the list with that git-directory path is the loaded project under the entry's name if
  the name is not empty, and under the name it was loaded with if the name is empty;
  later entries for the same repository, configured or scanned, leave it as it is.
\<close>

theorem discoverProjects_dedup:
  "distinct (map gitDir (discoverProjects h w config))
   \<and> (fst (loadProject h w (process_cwd h)) = Some c \<longrightarrow> hd (discoverProjects h w config) = c)
   \<and> (i < length (cfg_projects config) \<and> cfg_load h w config i = Some pr
        \<and> (\<forall>k<i. \<forall>q. cfg_load h w config k = Some q \<longrightarrow> gitDir q \<noteq> gitDir pr)
        \<and> (\<forall>c'. fst (loadProject h w (process_cwd h)) = Some c' \<longrightarrow> gitDir c' \<noteq> gitDir pr)
      \<longrightarrow> (\<forall>q \<in> set (discoverProjects h w config). gitDir q = gitDir pr \<longrightarrow>
              q = (if pc_name (cfg_projects config ! i) \<noteq> []
                   then pr\<lparr>name := pc_name (cfg_projects config ! i)\<rparr> else pr))
          \<and> (\<exists>q \<in> set (discoverProjects h w config). gitDir q = gitDir pr))"
proof (intro conjI impI)
  show "distinct (map gitDir (discoverProjects h w config))"
    by (rule discoverProjects_distinct)
next
  assume "fst (loadProject h w (process_cwd h)) = Some c"
  then show "hd (discoverProjects h w config) = c"
    by (rule discoverProjects_cwd_first)
next
  assume a: "i < length (cfg_projects config) \<and> cfg_load h w config i = Some pr
        \<and> (\<forall>k<i. \<forall>q. cfg_load h w config k = Some q \<longrightarrow> gitDir q \<noteq> gitDir pr)
        \<and> (\<forall>c'. fst (loadProject h w (process_cwd h)) = Some c' \<longrightarrow> gitDir c' \<noteq> gitDir pr)"
  define r where "r = (if pc_name (cfg_projects config ! i) \<noteq> []
                   then pr\<lparr>name := pc_name (cfg_projects config ! i)\<rparr> else pr)"
  from a have m: "r \<in> set (discoverProjects h w config)"
    unfolding r_def by (intro discoverProjects_first_declared) blast+
  have g: "gitDir r = gitDir pr"
    by (simp add: r_def)
  show "\<forall>q \<in> set (discoverProjects h w config). gitDir q = gitDir pr \<longrightarrow>
              q = (if pc_name (cfg_projects config ! i) \<noteq> []
                   then pr\<lparr>name := pc_name (cfg_projects config ! i)\<rparr> else pr)"
  proof (intro ballI impI)
    fix q assume "q \<in> set (discoverProjects h w config)" and "gitDir q = gitDir pr"
    with m g discoverProjects_distinct [of h w config]
    have "q = r"
      by (intro distinct_map_unique [of gitDir "discoverProjects h w config"]) simp_all
    then show "q = (if pc_name (cfg_projects config ! i) \<noteq> []
                   then pr\<lparr>name := pc_name (cfg_projects config ! i)\<rparr> else pr)"
      by (simp add: r_def)
  qed
  from m g show "\<exists>q \<in> set (discoverProjects h w config). gitDir q = gitDir pr"
    by blast
qed

theorem discoverProjects_dedup_witness:
  "cfg_load sample_host 0 sample_config 0 = Some sample_repo_project
   \<and> cfg_load sample_host 0 sample_config 1 = Some sample_repo_project
   \<and> fst (loadProject sample_host 0 (process_cwd sample_host)) = None
   \<and> pc_name (cfg_projects sample_config ! 0) = ''a''
   \<and> sample_repo_project\<lparr>name := ''a''\<rparr> \<in> set (discoverProjects sample_host 0 sample_config)
   \<and> distinct (map gitDir (discoverProjects sample_host 0 sample_config))"
proof -
  have a: "cfg_load sample_host 0 sample_config 0 = Some sample_repo_project"
    by code_simp
  have a': "cfg_load sample_host 0 sample_config 1 = Some sample_repo_project"
    by code_simp
  have b: "fst (loadProject sample_host 0 (process_cwd sample_host)) = None"
    by code_simp
  have n: "pc_name (cfg_projects sample_config ! 0) = ''a''"
    by (simp add: sample_config_def)
  have l: "0 < length (cfg_projects sample_config)"
    by (simp add: sample_config_def)
  note t = discoverProjects_dedup [where h = sample_host and w = 0 and config = sample_config
      and i = 0 and pr = sample_repo_project]
  from t a b l n
  have u: "\<forall>q \<in> set (discoverProjects sample_host 0 sample_config).
             gitDir q = gitDir sample_repo_project \<longrightarrow> q = sample_repo_project\<lparr>name := ''a''\<rparr>"
    and e: "\<exists>q \<in> set (discoverProjects sample_host 0 sample_config).
             gitDir q = gitDir sample_repo_project"
    and d: "distinct (map gitDir (discoverProjects sample_host 0 sample_config))"
    by simp_all
  from u e have "sample_repo_project\<lparr>name := ''a''\<rparr>
                   \<in> set (discoverProjects sample_host 0 sample_config)"
    by blast
  with a a' b n d show ?thesis by blast
qed

text \<open>The claim as first stated has the single project carry the first-declared entry's
  name in every configuration. Two entries for \<^verbatim>\<open>/repo\<close>, the first with an empty name:
  both load the git directory \<^verbatim>\<open>/repo/.git\<close>, and the one project returned is named
  \<^verbatim>\<open>repo\<close>, which is neither entry's name.\<close>

theorem discoverProjects_empty_name_counterexample:
  "map gitDir (discoverProjects sample_host 0
       \<lparr>worktreeBase = ''~/.worktrees'',
        cfg_projects = [\<lparr>pc_name = [], pc_path = ''/repo''\<rparr>,
                        \<lparr>pc_name = ''b'', pc_path = ''/repo''\<rparr>]\<rparr>) = [''/repo/.git'']
   \<and> map name (discoverProjects sample_host 0
       \<lparr>worktreeBase = ''~/.worktrees'',
        cfg_projects = [\<lparr>pc_name = [], pc_path = ''/repo''\<rparr>,
                        \<lparr>pc_name = ''b'', pc_path = ''/repo''\<rparr>]\<rparr>) = [''repo'']
   \<and> map_option gitDir (fst (loadProject sample_host 1 ''/repo'')) = Some ''/repo/.git''"
  by code_simp

end
